theory Spec2Isabelle
  imports Main "HOL-Library.Word"
begin

section \<open>Platform model\<close>

text \<open>
  The sketches run on the ESP8266: \<open>int\<close> is a 32-bit two's complement integer stored
  little-endian, \<open>char\<close> and \<open>u8\<close> are bytes. Signed values are read with \<open>sint\<close>.
\<close>

unbundle bit_operations_syntax

type_synonym u8 = "8 word"
type_synonym int32 = "32 word"

text \<open>
  Reads that leave the object they start in are undefined behaviour in C. They are
  results of the model, not hidden behind a default value.
\<close>

datatype fault = ReadPastPayload | ReadPastStruct

definition NUL :: char where
  "NUL = CHR 0x00"

definition char_of_u8 :: "u8 \<Rightarrow> char" where
  "char_of_u8 b = char_of (unat b)"

definition u8_of_char :: "char \<Rightarrow> u8" where
  "u8_of_char c = of_char c"

subsection \<open>Arduino String\<close>

text \<open>
  \<open>String(const char *)\<close>: the characters from the pointer up to the first NUL. The
  argument is the memory from the pointer to the end of the object it points into.
\<close>

definition String_cstr :: "char list \<Rightarrow> fault + string" where
  "String_cstr buf =
     (if NUL \<in> set buf then Inr (takeWhile (\<lambda>c. c \<noteq> NUL) buf) else Inl ReadPastStruct)"

text \<open>\<open>String(int)\<close>: the decimal numeral, with a leading minus sign when negative.\<close>

fun dec :: "nat \<Rightarrow> string" where
  "dec n = (if n < 10 then [char_of (48 + n)]
            else dec (n div 10) @ [char_of (48 + n mod 10)])"

declare dec.simps [simp del]

definition String_int :: "int32 \<Rightarrow> string" where
  "String_int w =
     (let v = sint w in if v < 0 then CHR ''-'' # dec (nat (- v)) else dec (nat v))"

text \<open>
  \<open>String::toCharArray(buf, bufsize)\<close> of the Arduino core: copies at most
  \<open>bufsize - 1\<close> characters and writes the terminating NUL after them; the rest of the
  buffer keeps its contents.
\<close>

definition toCharArray :: "string \<Rightarrow> char list \<Rightarrow> nat \<Rightarrow> char list" where
  "toCharArray s buf bufsize =
     (if bufsize = 0 then buf
      else let n = min (bufsize - 1) (length s) in take n s @ [NUL] @ drop (n + 1) buf)"

subsection \<open>The message struct and its bytes\<close>

text \<open>
  \<^verbatim>\<open>typedef struct struct_message { int id; int rssi; char mac[18]; } struct_message;\<close>
  The two ints take offsets 0 and 4, the array offsets 8 to 25, and two bytes of tail
  padding (offsets 26 and 27) bring the size to a multiple of the 4-byte alignment. The
  padding is part of the object: \<open>memcpy\<close> copies it and a string read that runs off
  the end of \<open>mac\<close> reads it, so the record keeps it as \<open>pad\<close>.
\<close>

record struct_message =
  id' :: int32
  rssi :: int32
  mac :: "char list"
  pad :: "char \<times> char"

text \<open>
  \<open>le32\<close> is the value of bytes stored least significant first, \<open>bytes_le n\<close> the
  \<open>n\<close> low bytes of a value in that order.
\<close>

definition sizeof_struct_message :: nat where
  "sizeof_struct_message = 28"

fun le32 :: "u8 list \<Rightarrow> int32" where
  "le32 [] = 0"
| "le32 (b # bs) = ucast b OR push_bit 8 (le32 bs)"

fun bytes_le :: "nat \<Rightarrow> int32 \<Rightarrow> u8 list" where
  "bytes_le 0 w = []"
| "bytes_le (Suc n) w = ucast w # bytes_le n (drop_bit 8 w)"

text \<open>
  \<open>memcpy(&incoming, incomingData, sizeof(incoming))\<close>: always reads
  \<open>sizeof(incoming)\<close> bytes at the pointer, whatever length was delivered.
\<close>

definition memcpy_struct :: "u8 list \<Rightarrow> fault + struct_message" where
  "memcpy_struct src =
     (if length src < sizeof_struct_message then Inl ReadPastPayload
      else Inr \<lparr> id' = le32 (take 4 src),
                 rssi = le32 (take 4 (drop 4 src)),
                 mac = map char_of_u8 (take 18 (drop 8 src)),
                 pad = (char_of_u8 (src ! 26), char_of_u8 (src ! 27)) \<rparr>)"

text \<open>\<open>(uint8_t *) &myData\<close> with \<open>sizeof(myData)\<close>: the bytes a node sends.\<close>

definition bytes_of_struct :: "struct_message \<Rightarrow> u8 list" where
  "bytes_of_struct m =
     bytes_le 4 (id' m) @ bytes_le 4 (rssi m) @ map u8_of_char (mac m) @
     [u8_of_char (fst (pad m)), u8_of_char (snd (pad m))]"

text \<open>
  \<open>String(m.mac)\<close> for a struct \<open>m\<close>: the read starts at the array and, when the
  array holds no NUL, goes on through the two padding bytes; only a read that leaves
  the struct is a fault.
\<close>

definition String_mac :: "struct_message \<Rightarrow> fault + string" where
  "String_mac m = String_cstr (mac m @ [fst (pad m), snd (pad m)])"

text \<open>
  A scan result: the networks found, in the order of the indices of \<open>WiFi.SSID(i)\<close> and
  \<open>WiFi.RSSI(i)\<close>, as (SSID, RSSI); \<open>WiFi.scanNetworks\<close> returns their number. A scan
  that fails returns a negative number, on which both sketches do what they do on an
  empty result.
\<close>

type_synonym scan = "(string \<times> int32) list"

section \<open>The Hub\<close>

definition targetSSID :: string where
  "targetSSID = ''XXX''"

definition zero_mac :: string where
  "zero_mac = ''00:00:00:00:00:00''"

text \<open>
  The state of the Hub: its three globals, whether the receive callback has been
  registered, and the lines printed to the serial port so far. The arrays have 11
  entries; the table of the readings is \<open>nodeSignals\<close> with \<open>nodeMacs\<close>, entries 1..10.
\<close>

record hub =
  incoming :: struct_message
  nodeSignals :: "int32 list"
  nodeMacs :: "string list"
  recv_cb :: bool
  serial :: "string list"

text \<open>The globals at power-on: zero-initialised ints, empty Strings, no callback.\<close>

definition boot :: hub where
  "boot = \<lparr> incoming = \<lparr> id' = 0, rssi = 0, mac = replicate 18 NUL, pad = (NUL, NUL) \<rparr>,
             nodeSignals = replicate 11 0,
             nodeMacs = replicate 11 [],
             recv_cb = False,
             serial = [] \<rparr>"

text \<open>
  \<open>OnDataRecv(mac_addr, incomingData, len)\<close>. \<open>incomingData\<close> is the delivered payload;
  the sender's address and the length are parameters the body never uses. The index
  \<open>incoming.id\<close> is within the arrays wherever they are written.
\<close>

definition OnDataRecv :: "u8 list \<Rightarrow> u8 list \<Rightarrow> u8 \<Rightarrow> hub \<Rightarrow> fault + hub" where
  "OnDataRecv mac_addr incomingData len h =
     (case memcpy_struct incomingData of
        Inl e \<Rightarrow> Inl e
      | Inr m \<Rightarrow>
          let h1 = h\<lparr>incoming := m\<rparr> in
          if 2 \<le> sint (id' m) \<and> sint (id' m) \<le> 10 then
            if sint (rssi m) < 0 then
              let h2 = h1\<lparr>nodeSignals := (nodeSignals h1)[nat (sint (id' m)) := rssi m]\<rparr> in
              (case String_mac m of
                 Inl e \<Rightarrow> Inl e
               | Inr s \<Rightarrow> Inr (h2\<lparr>nodeMacs := (nodeMacs h2)[nat (sint (id' m)) := s]\<rparr>))
            else Inr h1
          else Inr h1)"

text \<open>\<open>setup()\<close>, given what \<open>esp_now_init()\<close> returned.\<close>

definition hub_setup :: "int \<Rightarrow> hub \<Rightarrow> hub" where
  "hub_setup esp_now_init h =
     (if esp_now_init \<noteq> 0 then h\<lparr>serial := serial h @ [''Error initializing ESP-NOW'']\<rparr>
      else
        let h1 = h\<lparr>recv_cb := True\<rparr>;
            h2 = foldl (\<lambda>g i. g\<lparr>nodeSignals := (nodeSignals g)[i := - 100],
                                nodeMacs := (nodeMacs g)[i := zero_mac]\<rparr>) h1 [0..<11]
        in h2\<lparr>serial := serial h2 @ [''Hub Setup Complete. Awaiting Node Data...'']\<rparr>)"

text \<open>The search of the scan result: the first entry named \<open>targetSSID\<close> ends it.\<close>

fun scan_target :: "scan \<Rightarrow> int32 \<Rightarrow> int32" where
  "scan_target [] baseRSSI = baseRSSI"
| "scan_target ((ssid, r) # rest) baseRSSI =
     (if ssid = targetSSID then r else scan_target rest baseRSSI)"

definition build_output :: "int32 \<Rightarrow> string \<Rightarrow> hub \<Rightarrow> string" where
  "build_output baseRSSI macAddress h =
     foldl (\<lambda>output i.
              (output @ '','') @
              (if i = 1 then String_int baseRSSI @ '','' @ macAddress
               else String_int (nodeSignals h ! i) @ '','' @ nodeMacs h ! i))
           ''DATA'' [1..<11]"

text \<open>
  \<open>loop()\<close>, given the result of \<open>WiFi.scanNetworks\<close> and of \<open>WiFi.macAddress()\<close>:
  the line goes to the serial port, the globals are not written.
\<close>

definition hub_loop :: "scan \<Rightarrow> string \<Rightarrow> hub \<Rightarrow> hub" where
  "hub_loop nets macAddress h =
     (let baseRSSI = scan_target nets (- 100);
          output = build_output baseRSSI macAddress h
      in h\<lparr>serial := serial h @ [output]\<rparr>)"

text \<open>
  The Arduino core calls \<open>setup()\<close> once and then \<open>loop()\<close> again and again; the
  ESP-NOW layer calls the registered callback for each delivered payload, which runs to
  completion between two steps of the loop.
\<close>

datatype event = Deliver "u8 list" "u8 list" u8 | Cycle scan

fun hub_step :: "string \<Rightarrow> hub \<Rightarrow> event \<Rightarrow> fault + hub" where
  "hub_step macAddress h (Deliver mac_addr incomingData len) =
     (if recv_cb h then OnDataRecv mac_addr incomingData len h else Inr h)"
| "hub_step macAddress h (Cycle nets) = Inr (hub_loop nets macAddress h)"

fun hub_run :: "string \<Rightarrow> hub \<Rightarrow> event list \<Rightarrow> fault + hub" where
  "hub_run macAddress h [] = Inr h"
| "hub_run macAddress h (ev # evs) =
     (case hub_step macAddress h ev of
        Inl e \<Rightarrow> Inl e
      | Inr h' \<Rightarrow> hub_run macAddress h' evs)"

section \<open>The Satellite\<close>

text \<open>
  The configuration constants of the sketch, the globals (\<open>myData\<close>), and what the node
  did to the outside: the peers it registered, the calls of \<open>esp_now_send\<close> it made and
  the lines it printed.
\<close>

definition NODE_ID :: int32 where
  "NODE_ID = 9"

definition collectorMAC :: "u8 list" where
  "collectorMAC = [0, 0, 0, 0, 0, 0]"

record sat =
  myData :: struct_message
  peers :: "u8 list list"
  sent :: "(u8 list \<times> u8 list \<times> nat) list"
  sat_serial :: "string list"

definition sat_boot :: sat where
  "sat_boot = \<lparr> myData = \<lparr> id' = 0, rssi = 0, mac = replicate 18 NUL, pad = (NUL, NUL) \<rparr>,
                 peers = [], sent = [], sat_serial = [] \<rparr>"

definition sat_setup :: "int \<Rightarrow> sat \<Rightarrow> sat" where
  "sat_setup esp_now_init s =
     (if esp_now_init \<noteq> 0 then s\<lparr>sat_serial := sat_serial s @ [''Error initializing ESP-NOW'']\<rparr>
      else s\<lparr>peers := peers s @ [collectorMAC],
             sat_serial := sat_serial s @
               [''Node '' @ String_int NODE_ID @ '' initialized. Ready to transmit.'']\<rparr>)"

text \<open>
  \<open>loop()\<close>, given the result of \<open>WiFi.scanNetworks\<close> (\<open>n\<close> is the number of
  networks found) and of \<open>WiFi.macAddress()\<close>: one scan, one packet, one call of
  \<open>esp_now_send\<close>, recorded in \<open>sent\<close> as (peer, bytes, length). The result of
  \<open>esp_now_send\<close> is not looked at.
\<close>

definition sat_loop :: "scan \<Rightarrow> string \<Rightarrow> sat \<Rightarrow> sat" where
  "sat_loop nets macAddress s =
     (let n = int (length nets);
          strongestRSSI = (if 0 < n then snd (nets ! 0) else - 100);
          d = (myData s)\<lparr> id' := NODE_ID, rssi := strongestRSSI,
                           mac := toCharArray macAddress (mac (myData s)) 18 \<rparr>
      in s\<lparr> myData := d,
             sent := sent s @ [(collectorMAC, bytes_of_struct d, sizeof_struct_message)],
             sat_serial := sat_serial s @
               [''Node '' @ String_int NODE_ID @ '' reporting RSSI: '' @
                String_int strongestRSSI @ '' dBm to Hub''] \<rparr>)"

fun sat_run :: "string \<Rightarrow> sat \<Rightarrow> scan list \<Rightarrow> sat" where
  "sat_run macAddress s [] = s"
| "sat_run macAddress s (nets # rest) = sat_run macAddress (sat_loop nets macAddress s) rest"

section \<open>Reading the output line\<close>

text \<open>
  What the claims say about a line is said about its fields. \<open>join_commas\<close> writes a
  list of fields as one line and \<open>split_commas\<close> reads a line back at its commas, as
  the consumer of the lines does.
\<close>

definition join_commas :: "string list \<Rightarrow> string" where
  "join_commas fs = (case fs of [] \<Rightarrow> [] | f # rest \<Rightarrow> foldl (\<lambda>acc g. acc @ '','' @ g) f rest)"

fun split_commas :: "string \<Rightarrow> string list" where
  "split_commas [] = [[]]"
| "split_commas (c # cs) =
     (if c = CHR '','' then [] # split_commas cs
      else (case split_commas cs of [] \<Rightarrow> [[c]] | f # fs \<Rightarrow> (c # f) # fs))"

text \<open>
  The record of one cycle as the interface description words it: the tag, then for the
  identities 1..10 in order a reading and an address, where the pair of identity 1 is
  the Hub's own. \<open>build_output\<close> is proved below to be the join of these fields.
\<close>

definition output_fields :: "int32 \<Rightarrow> string \<Rightarrow> hub \<Rightarrow> string list" where
  "output_fields baseRSSI macAddress h =
     ''DATA'' # String_int baseRSSI # macAddress #
     concat (map (\<lambda>i. [String_int (nodeSignals h ! i), nodeMacs h ! i]) [2..<11])"

text \<open>
  The canonical form of an address: six groups of two hex digits, separated by colons,
  17 characters.
\<close>

definition is_hex :: "char \<Rightarrow> bool" where
  "is_hex c = (c \<in> set ''0123456789ABCDEFabcdef'')"

definition canonical_mac :: "string \<Rightarrow> bool" where
  "canonical_mac s =
     (length s = 17 \<and>
      list_all (\<lambda>k. if k mod 3 = 2 then s ! k = CHR '':'' else is_hex (s ! k)) [0..<17])"

text \<open>
  \<open>claims_slot i ev\<close>: the event delivers a record that passes both checks of the
  handler and names identity \<open>i\<close>. \<open>well_addressed ev\<close>: if the event delivers a
  record that passes both checks, the string that \<open>String\<close> reads from its address
  bytes is canonical.
\<close>

fun claims_slot :: "nat \<Rightarrow> event \<Rightarrow> bool" where
  "claims_slot i (Cycle nets) = False"
| "claims_slot i (Deliver mac_addr incomingData len) =
     (case memcpy_struct incomingData of
        Inl e \<Rightarrow> False
      | Inr m \<Rightarrow> 2 \<le> sint (id' m) \<and> sint (id' m) \<le> 10 \<and> sint (rssi m) < 0 \<and>
                 sint (id' m) = int i)"

fun well_addressed :: "event \<Rightarrow> bool" where
  "well_addressed (Cycle nets) = True"
| "well_addressed (Deliver mac_addr incomingData len) =
     (case memcpy_struct incomingData of
        Inl e \<Rightarrow> True
      | Inr m \<Rightarrow>
          if 2 \<le> sint (id' m) \<and> sint (id' m) \<le> 10 \<and> sint (rssi m) < 0
          then (case String_mac m of Inl e \<Rightarrow> False | Inr s \<Rightarrow> canonical_mac s)
          else True)"

text \<open>
  Concrete inputs: a record as a node lays it out (the address string, then NULs up to
  18 characters), the addresses of a Hub and of a Satellite, and a payload two bytes
  longer than the struct.
\<close>

definition telemetry :: "int32 \<Rightarrow> int32 \<Rightarrow> string \<Rightarrow> struct_message" where
  "telemetry i r s =
     \<lparr> id' = i, rssi = r, mac = s @ replicate (18 - length s) NUL, pad = (NUL, NUL) \<rparr>"

definition hub_address :: string where
  "hub_address = ''5C:CF:7F:00:00:01''"

definition sat_address :: string where
  "sat_address = ''5C:CF:7F:00:00:09''"

definition long_payload :: "u8 list" where
  "long_payload = bytes_of_struct (telemetry 5 (- 42) ''AA:BB:CC:DD:EE:FF'') @ [0, 0]"

text \<open>The line one cycle prints in state \<open>h\<close>, and the fields it is made of.\<close>

definition emitted :: "scan \<Rightarrow> string \<Rightarrow> hub \<Rightarrow> string" where
  "emitted nets macAddress h = last (serial (hub_loop nets macAddress h))"

definition cycle_fields :: "scan \<Rightarrow> string \<Rightarrow> hub \<Rightarrow> string list" where
  "cycle_fields nets macAddress h = output_fields (scan_target nets (- 100)) macAddress h"

section \<open>Basic facts\<close>

lemma upt_1_11: "[1..<11] = [1, 2, 3, 4, 5, 6, 7, 8, 9, 10]"
  by (simp add: upt_rec)

lemma upt_2_11: "[2..<11] = [2, 3, 4, 5, 6, 7, 8, 9, 10]"
  by (simp add: upt_rec)

lemma build_output_join:
  "build_output baseRSSI macAddress h = join_commas (output_fields baseRSSI macAddress h)"
  unfolding build_output_def output_fields_def upt_1_11 upt_2_11 join_commas_def
  by simp

lemma length_output_fields: "length (output_fields b a h) = 21"
  by (simp add: output_fields_def upt_2_11)

lemma foldl_join:
  "foldl (\<lambda>acc g. acc @ CHR '','' # g) (a @ f) rest = a @ foldl (\<lambda>acc g. acc @ CHR '','' # g) f rest"
  by (induction rest arbitrary: f) simp_all

lemma join_commas_Cons2: "join_commas (f # g # rest) = f @ '','' @ join_commas (g # rest)"
  using foldl_join [of "f @ '',''" g rest] by (simp add: join_commas_def)

lemma split_commas_free: "CHR '','' \<notin> set f \<Longrightarrow> split_commas f = [f]"
  by (induction f) auto

lemma split_commas_append: "CHR '','' \<notin> set f \<Longrightarrow> split_commas (f @ CHR '','' # cs) = f # split_commas cs"
  by (induction f) auto

lemma split_join_commas:
  "fs \<noteq> [] \<Longrightarrow> \<forall>f\<in>set fs. CHR '','' \<notin> set f \<Longrightarrow> split_commas (join_commas fs) = fs"
proof (induction fs rule: induct_list012)
  case 1
  then show ?case by simp
next
  case (2 f)
  then show ?case by (simp add: join_commas_def split_commas_free)
next
  case (3 f g rest)
  then show ?case by (simp add: join_commas_Cons2 split_commas_append)
qed

lemma output_fields_nth:
  "2 \<le> i \<Longrightarrow> i \<le> 10 \<Longrightarrow>
     output_fields b a h ! (2 * i - 1) = String_int (nodeSignals h ! i) \<and>
     output_fields b a h ! (2 * i) = nodeMacs h ! i"
proof -
  assume "2 \<le> i" "i \<le> 10"
  then have "i \<in> {2, 3, 4, 5, 6, 7, 8, 9, 10}" by auto
  then show ?thesis
    unfolding output_fields_def upt_2_11 by (elim insertE emptyE) simp_all
qed

lemma le32_bytes_le: "le32 (bytes_le n w) = take_bit (8 * n) w"
proof (induction n arbitrary: w)
  case 0
  then show ?case by simp
next
  case (Suc n)
  show ?case
    apply (simp add: Suc)
    apply (rule bit_word_eqI)
    apply (auto simp add: bit_simps)
    done
qed

lemma le32_bytes_le4: "le32 (bytes_le 4 w) = w"
  by (simp add: le32_bytes_le take_bit_word_eq_self)

lemma length_bytes_le: "length (bytes_le n w) = n"
  by (induction n arbitrary: w) simp_all

lemma char_u8: "char_of_u8 (u8_of_char c) = c"
proof -
  have "(of_char c :: u8) = of_nat (of_char c)"
    by (simp add: of_nat_of_char)
  then have "unat (of_char c :: u8) = of_char c"
    by (simp add: unat_of_nat)
  then show ?thesis
    by (simp add: char_of_u8_def u8_of_char_def)
qed

lemma nth_tail_padding:
  "length xs = 26 \<Longrightarrow> (xs @ [a, b]) ! 26 = a \<and> (xs @ [a, b]) ! 27 = b"
  by (simp add: nth_append)

lemma memcpy_bytes_of_struct:
  assumes "length (mac m) = 18"
  shows "memcpy_struct (bytes_of_struct m) = Inr m"
proof -
  let ?fields = "bytes_le 4 (id' m) @ bytes_le 4 (rssi m) @ map u8_of_char (mac m)"
  let ?p0 = "u8_of_char (fst (pad m))" and ?p1 = "u8_of_char (snd (pad m))"
  have b: "bytes_of_struct m = ?fields @ [?p0, ?p1]"
    by (simp add: bytes_of_struct_def)
  have n: "length ?fields = 26"
    using assms by (simp add: length_bytes_le)
  from nth_tail_padding [OF n]
  have "(?fields @ [?p0, ?p1]) ! 26 = ?p0" and "(?fields @ [?p0, ?p1]) ! 27 = ?p1"
    by blast+
  then have "bytes_of_struct m ! 26 = ?p0" and "bytes_of_struct m ! 27 = ?p1"
    by (simp_all only: b)
  moreover have "le32 (take 4 (bytes_of_struct m)) = id' m"
    and "le32 (take 4 (drop 4 (bytes_of_struct m))) = rssi m"
    and "map char_of_u8 (take 18 (drop 8 (bytes_of_struct m))) = mac m"
    and "\<not> length (bytes_of_struct m) < 28"
    using assms
    by (simp_all add: bytes_of_struct_def length_bytes_le le32_bytes_le4 char_u8 comp_def)
  ultimately show ?thesis
    by (simp add: memcpy_struct_def sizeof_struct_message_def char_u8)
qed

lemma OnDataRecv_bad_id:
  "memcpy_struct p = Inr m \<Longrightarrow> \<not> (2 \<le> sint (id' m) \<and> sint (id' m) \<le> 10) \<Longrightarrow>
     OnDataRecv a p l h = Inr (h\<lparr>incoming := m\<rparr>)"
  by (auto simp add: OnDataRecv_def Let_def)

lemma OnDataRecv_bad_rssi:
  "memcpy_struct p = Inr m \<Longrightarrow> 0 \<le> sint (rssi m) \<Longrightarrow>
     OnDataRecv a p l h = Inr (h\<lparr>incoming := m\<rparr>)"
  by (auto simp add: OnDataRecv_def Let_def)

lemma OnDataRecv_accept:
  "memcpy_struct p = Inr m \<Longrightarrow> 2 \<le> sint (id' m) \<Longrightarrow> sint (id' m) \<le> 10 \<Longrightarrow>
   sint (rssi m) < 0 \<Longrightarrow> String_mac m = Inr s \<Longrightarrow>
     OnDataRecv a p l h =
       Inr (h\<lparr>incoming := m,
               nodeSignals := (nodeSignals h)[nat (sint (id' m)) := rssi m],
               nodeMacs := (nodeMacs h)[nat (sint (id' m)) := s]\<rparr>)"
  by (simp add: OnDataRecv_def)

lemma hub_loop_table:
  "nodeSignals (hub_loop nets a h) = nodeSignals h \<and> nodeMacs (hub_loop nets a h) = nodeMacs h
   \<and> recv_cb (hub_loop nets a h) = recv_cb h"
  by (simp add: hub_loop_def Let_def)

lemma hub_loop_line:
  "last (serial (hub_loop nets a h)) = build_output (scan_target nets (- 100)) a h"
  by (simp add: hub_loop_def Let_def)

lemma OnDataRecv_lengths:
  "OnDataRecv a p l h = Inr h' \<Longrightarrow>
     length (nodeSignals h') = length (nodeSignals h) \<and>
     length (nodeMacs h') = length (nodeMacs h) \<and> recv_cb h' = recv_cb h"
  by (auto simp add: OnDataRecv_def Let_def split: sum.splits if_splits)

lemma hub_step_lengths:
  "hub_step own h ev = Inr h' \<Longrightarrow>
     length (nodeSignals h') = length (nodeSignals h) \<and>
     length (nodeMacs h') = length (nodeMacs h) \<and> recv_cb h' = recv_cb h"
  by (cases ev) (auto simp add: hub_loop_table dest: OnDataRecv_lengths split: if_splits)

lemma hub_run_lengths:
  "hub_run own h evs = Inr h' \<Longrightarrow>
     length (nodeSignals h') = length (nodeSignals h) \<and>
     length (nodeMacs h') = length (nodeMacs h) \<and> recv_cb h' = recv_cb h"
proof (induction evs arbitrary: h)
  case Nil
  then show ?case by simp
next
  case (Cons ev evs)
  then obtain h1 where s: "hub_step own h ev = Inr h1" and r: "hub_run own h1 evs = Inr h'"
    by (auto split: sum.splits)
  from Cons.IH [OF r] hub_step_lengths [OF s] show ?case by simp
qed

lemma OnDataRecv_slot:
  assumes "OnDataRecv a p l h = Inr h'" and "\<not> claims_slot i (Deliver a p l)"
  shows "nodeSignals h' ! i = nodeSignals h ! i \<and> nodeMacs h' ! i = nodeMacs h ! i"
  using assms
  by (auto simp add: OnDataRecv_def Let_def split: sum.splits if_splits)

lemma hub_step_slot:
  assumes "hub_step own h ev = Inr h'" and "\<not> claims_slot i ev"
  shows "nodeSignals h' ! i = nodeSignals h ! i \<and> nodeMacs h' ! i = nodeMacs h ! i"
proof (cases ev)
  case (Deliver a p l)
  with assms show ?thesis
    by (cases "recv_cb h") (auto dest: OnDataRecv_slot)
next
  case (Cycle nets)
  with assms show ?thesis by (auto simp add: hub_loop_table)
qed

lemma hub_run_slot:
  "hub_run own h evs = Inr h' \<Longrightarrow> \<forall>ev\<in>set evs. \<not> claims_slot i ev \<Longrightarrow>
     nodeSignals h' ! i = nodeSignals h ! i \<and> nodeMacs h' ! i = nodeMacs h ! i"
proof (induction evs arbitrary: h)
  case Nil
  then show ?case by simp
next
  case (Cons ev evs)
  then obtain h1 where s: "hub_step own h ev = Inr h1" and r: "hub_run own h1 evs = Inr h'"
    by (auto split: sum.splits)
  from Cons.prems have "\<not> claims_slot i ev" and "\<forall>e\<in>set evs. \<not> claims_slot i e"
    by simp_all
  with Cons.IH [OF r] hub_step_slot [OF s] show ?case by simp
qed

lemma hub_setup_ok:
  "nodeSignals (hub_setup 0 boot) = replicate 11 (- 100) \<and>
   nodeMacs (hub_setup 0 boot) = replicate 11 zero_mac \<and> recv_cb (hub_setup 0 boot)"
  by code_simp

lemma String_int_sentinel: "String_int (- 100) = ''-100''"
  by code_simp

lemma scan_target_find:
  "scan_target nets b = (case find (\<lambda>e. fst e = targetSSID) nets of None \<Rightarrow> b | Some e \<Rightarrow> snd e)"
  by (induction nets b rule: scan_target.induct) simp_all

lemma output_fields_head:
  "output_fields b a h ! 0 = ''DATA'' \<and> output_fields b a h ! 1 = String_int b \<and>
   output_fields b a h ! 2 = a"
  by (simp add: output_fields_def)

lemma takeWhile_terminated:
  "NUL \<notin> set a \<Longrightarrow> takeWhile (\<lambda>c. c \<noteq> NUL) (a @ NUL # rest) = a"
  by (induction a) auto

lemma String_mac_telemetry:
  assumes "length s \<le> 17" and "NUL \<notin> set s"
  shows "String_mac (telemetry i r s) = Inr s"
proof -
  from assms(1) obtain k where k: "18 - length s = Suc k"
    by (cases "18 - length s") auto
  have "takeWhile (\<lambda>c. c \<noteq> NUL) (s @ NUL # (replicate k NUL @ [NUL, NUL])) = s"
    using assms(2) by (rule takeWhile_terminated)
  then show ?thesis
    by (simp add: String_mac_def String_cstr_def telemetry_def k)
qed

lemma length_mac_telemetry: "length s \<le> 17 \<Longrightarrow> length (mac (telemetry i r s)) = 18"
  by (simp add: telemetry_def)

lemma memcpy_telemetry:
  "length s \<le> 17 \<Longrightarrow> memcpy_struct (bytes_of_struct (telemetry i r s)) = Inr (telemetry i r s)"
  by (simp add: memcpy_bytes_of_struct length_mac_telemetry)

lemma memcpy_take:
  "sizeof_struct_message \<le> length p \<Longrightarrow>
     memcpy_struct (take sizeof_struct_message p) = memcpy_struct p"
  by (simp add: memcpy_struct_def sizeof_struct_message_def drop_take)

lemma emitted_join: "emitted nets a h = join_commas (cycle_fields nets a h)"
  by (simp add: emitted_def cycle_fields_def hub_loop_line build_output_join)

lemma digit_not_comma: "k < 10 \<Longrightarrow> char_of (48 + k) \<noteq> CHR '',''" for k :: nat
proof -
  have "\<forall>j\<in>set [0..<10]. char_of (48 + j) \<noteq> CHR '',''"
    by code_simp
  then show "k < 10 \<Longrightarrow> char_of (48 + k) \<noteq> CHR '',''"
    by simp
qed

lemma dec_comma_free: "CHR '','' \<notin> set (dec n)"
proof (induction n rule: dec.induct)
  case (1 n)
  show ?case
  proof (cases "n < 10")
    case True
    then show ?thesis
      using digit_not_comma [of n] by (subst dec.simps) auto
  next
    case False
    then show ?thesis
      using 1 digit_not_comma [of "n mod 10"] by (subst dec.simps) auto
  qed
qed

lemma String_int_comma_free: "CHR '','' \<notin> set (String_int w)"
  by (simp add: String_int_def Let_def dec_comma_free)

lemma fields_comma_free:
  assumes "CHR '','' \<notin> set a"
    and "\<forall>i. 2 \<le> i \<and> i \<le> 10 \<longrightarrow> CHR '','' \<notin> set (nodeMacs h ! i)"
  shows "\<forall>f\<in>set (output_fields b a h). CHR '','' \<notin> set f"
  using assms unfolding output_fields_def upt_2_11
  by (simp add: String_int_comma_free)

lemma split_emitted:
  assumes "CHR '','' \<notin> set a"
    and "\<forall>i. 2 \<le> i \<and> i \<le> 10 \<longrightarrow> CHR '','' \<notin> set (nodeMacs h ! i)"
  shows "split_commas (emitted nets a h) = cycle_fields nets a h"
proof -
  have "cycle_fields nets a h \<noteq> []"
    by (simp add: cycle_fields_def output_fields_def)
  moreover have "\<forall>f\<in>set (cycle_fields nets a h). CHR '','' \<notin> set f"
    unfolding cycle_fields_def using assms by (rule fields_comma_free)
  ultimately show ?thesis
    by (simp add: emitted_join split_join_commas)
qed

lemma never_claims_slot_1: "\<not> claims_slot 1 ev"
  by (cases ev) (auto split: sum.splits)

lemma length_sent_sat_run:
  "length (sent (sat_run a s scans)) = length (sent s) + length scans"
  by (induction scans arbitrary: s) (simp_all add: sat_loop_def Let_def)

lemma canonical_comma_free: "canonical_mac s \<Longrightarrow> CHR '','' \<notin> set s"
proof
  assume c: "canonical_mac s" and "CHR '','' \<in> set s"
  then obtain k where k: "k < length s" "s ! k = CHR '',''"
    by (auto simp add: in_set_conv_nth)
  from c k(1) have "if k mod 3 = 2 then s ! k = CHR '':'' else is_hex (s ! k)"
    by (simp add: canonical_mac_def list_all_iff)
  with k(2) show False
    by (simp add: is_hex_def split: if_splits)
qed

lemma canonical_zero_mac: "canonical_mac zero_mac"
  by code_simp

lemma OnDataRecv_canonical:
  assumes "OnDataRecv a p l h = Inr h'" and "well_addressed (Deliver a p l)"
    and "\<forall>s\<in>set (nodeMacs h). canonical_mac s"
  shows "\<forall>s\<in>set (nodeMacs h'). canonical_mac s"
  using assms
  by (auto simp add: OnDataRecv_def Let_def split: sum.splits if_splits
      dest!: subsetD [OF set_update_subset_insert])

lemma hub_step_canonical:
  assumes "hub_step own h ev = Inr h'" and "well_addressed ev"
    and "\<forall>s\<in>set (nodeMacs h). canonical_mac s"
  shows "\<forall>s\<in>set (nodeMacs h'). canonical_mac s"
proof (cases ev)
  case (Deliver a p l)
  show ?thesis
  proof (cases "recv_cb h")
    case True
    with assms Deliver show ?thesis
      using OnDataRecv_canonical [of a p l h h'] by simp
  next
    case False
    with assms Deliver show ?thesis by simp
  qed
next
  case (Cycle nets)
  with assms show ?thesis by (auto simp add: hub_loop_table)
qed

lemma hub_run_canonical:
  "hub_run own h evs = Inr h' \<Longrightarrow> \<forall>ev\<in>set evs. well_addressed ev \<Longrightarrow>
   \<forall>s\<in>set (nodeMacs h). canonical_mac s \<Longrightarrow> \<forall>s\<in>set (nodeMacs h'). canonical_mac s"
proof (induction evs arbitrary: h)
  case Nil
  then show ?case by simp
next
  case (Cons ev evs)
  then obtain h1 where s: "hub_step own h ev = Inr h1" and r: "hub_run own h1 evs = Inr h'"
    by (auto split: sum.splits)
  from Cons.prems have w: "well_addressed ev" and ws: "\<forall>e\<in>set evs. well_addressed e"
    by simp_all
  from hub_step_canonical [OF s w Cons.prems(3)] have "\<forall>s\<in>set (nodeMacs h1). canonical_mac s" .
  from Cons.IH [OF r ws this] show ?case .
qed

lemma replicate_11_nth: "i \<le> 10 \<Longrightarrow> replicate 11 x ! i = x"
  by simp

lemma range_2_10: "(\<forall>i. 2 \<le> i \<and> i \<le> 10 \<longrightarrow> P i) \<longleftrightarrow> (\<forall>i\<in>set [2..<11]. P i)" for P :: "nat \<Rightarrow> bool"
proof -
  have "\<And>i::nat. i \<le> 10 \<longleftrightarrow> i < 11" by arith
  then show ?thesis by (simp only: set_upt Ball_def atLeastLessThan_iff)
qed

lemma toCharArray_cstr:
  assumes "length a \<le> 17" and "NUL \<notin> set a" and "length buf = 18"
  shows "String_cstr (toCharArray a buf 18) = Inr a \<and> length (toCharArray a buf 18) = 18"
proof -
  from assms(1) have n: "min 17 (length a) = length a" by simp
  have "takeWhile (\<lambda>c. c \<noteq> NUL) (a @ NUL # drop (Suc (length a)) buf) = a"
    using assms(2) by (rule takeWhile_terminated)
  then show ?thesis
    using assms by (simp add: toCharArray_def String_cstr_def n)
qed

lemma hub_run_append:
  "hub_run own h (xs @ ys) =
     (case hub_run own h xs of Inl e \<Rightarrow> Inl e | Inr h1 \<Rightarrow> hub_run own h1 ys)"
  by (induction xs arbitrary: h) (simp_all split: sum.splits)

lemma OnDataRecv_reads_padding:
  "OnDataRecv [1, 2, 3, 4, 5, 6]
     (bytes_of_struct \<lparr> id' = 5, rssi = - 42, mac = ''AAAAAAAAAAAAAAAAAA'',
                         pad = (CHR ''B'', NUL) \<rparr>) 28 (hub_setup 0 boot) =
   Inr ((hub_setup 0 boot)
          \<lparr>incoming := \<lparr> id' = 5, rssi = - 42, mac = ''AAAAAAAAAAAAAAAAAA'',
                         pad = (CHR ''B'', NUL) \<rparr>,
           nodeSignals := (nodeSignals (hub_setup 0 boot))[5 := - 42],
           nodeMacs := (nodeMacs (hub_setup 0 boot))[5 := ''AAAAAAAAAAAAAAAAAAB'']\<rparr>)"
  by code_simp

section \<open>The receive handler\<close>

text \<open>
  C2. A delivered record whose identity lies outside 2..10 (0, 1, above 10, negative)
  changes no slot of the table: the handler returns the state it was given with only
  the scratch global \<open>incoming\<close> overwritten, so \<open>nodeSignals\<close> and \<open>nodeMacs\<close> are
  what they were.
\<close>

theorem C2_invalid_identity_ignored:
  assumes "memcpy_struct incomingData = Inr m"
    and "sint (id' m) < 2 \<or> 10 < sint (id' m)"
  shows "OnDataRecv mac_addr incomingData len h = Inr (h\<lparr>incoming := m\<rparr>) \<and>
         nodeSignals (h\<lparr>incoming := m\<rparr>) = nodeSignals h \<and>
         nodeMacs (h\<lparr>incoming := m\<rparr>) = nodeMacs h"
proof -
  from assms(2) have "\<not> (2 \<le> sint (id' m) \<and> sint (id' m) \<le> 10)"
    by auto
  with assms(1) show ?thesis
    by (simp add: OnDataRecv_bad_id)
qed

theorem C2_invalid_identity_ignored_witness:
  "OnDataRecv [1, 2, 3, 4, 5, 6] (bytes_of_struct (telemetry 11 (- 42) ''AA:BB:CC:DD:EE:FF''))
     28 (hub_setup 0 boot)
   = Inr ((hub_setup 0 boot)\<lparr>incoming := telemetry 11 (- 42) ''AA:BB:CC:DD:EE:FF''\<rparr>) \<and>
   OnDataRecv [1, 2, 3, 4, 5, 6] (bytes_of_struct (telemetry 1 (- 42) ''AA:BB:CC:DD:EE:FF''))
     28 (hub_setup 0 boot)
   = Inr ((hub_setup 0 boot)\<lparr>incoming := telemetry 1 (- 42) ''AA:BB:CC:DD:EE:FF''\<rparr>)"
proof -
  have m11: "memcpy_struct (bytes_of_struct (telemetry 11 (- 42) ''AA:BB:CC:DD:EE:FF''))
             = Inr (telemetry 11 (- 42) ''AA:BB:CC:DD:EE:FF'')"
    by (simp add: memcpy_telemetry)
  have m1: "memcpy_struct (bytes_of_struct (telemetry 1 (- 42) ''AA:BB:CC:DD:EE:FF''))
            = Inr (telemetry 1 (- 42) ''AA:BB:CC:DD:EE:FF'')"
    by (simp add: memcpy_telemetry)
  have b11: "sint (id' (telemetry 11 (- 42) ''AA:BB:CC:DD:EE:FF'')) < 2 \<or>
             10 < sint (id' (telemetry 11 (- 42) ''AA:BB:CC:DD:EE:FF''))"
    by (simp add: telemetry_def)
  have b1: "sint (id' (telemetry 1 (- 42) ''AA:BB:CC:DD:EE:FF'')) < 2 \<or>
            10 < sint (id' (telemetry 1 (- 42) ''AA:BB:CC:DD:EE:FF''))"
    by (simp add: telemetry_def)
  show ?thesis
    using C2_invalid_identity_ignored [OF m11 b11] C2_invalid_identity_ignored [OF m1 b1]
    by simp
qed

text \<open>
  C3. For a delivered record with identity in 2..10 the only check on the reading is its
  sign: a reading \<open>r \<ge> 0\<close> is rejected and the table is unchanged; every reading
  \<open>r < 0\<close>, also one below -100, is accepted and overwrites slot \<open>id\<close> with the reading
  and the NUL-terminated address string of the record.
\<close>

theorem C3_reading_sign_check:
  assumes "memcpy_struct incomingData = Inr m"
    and "2 \<le> sint (id' m)" and "sint (id' m) \<le> 10"
  shows "(0 \<le> sint (rssi m) \<longrightarrow>
            OnDataRecv mac_addr incomingData len h = Inr (h\<lparr>incoming := m\<rparr>)) \<and>
         (sint (rssi m) < 0 \<longrightarrow> String_mac m = Inr s \<longrightarrow>
            OnDataRecv mac_addr incomingData len h =
              Inr (h\<lparr>incoming := m,
                      nodeSignals := (nodeSignals h)[nat (sint (id' m)) := rssi m],
                      nodeMacs := (nodeMacs h)[nat (sint (id' m)) := s]\<rparr>))"
  using assms by (simp add: OnDataRecv_bad_rssi OnDataRecv_accept)

theorem C3_reading_sign_check_witness:
  "OnDataRecv [1, 2, 3, 4, 5, 6] (bytes_of_struct (telemetry 5 7 ''AA:BB:CC:DD:EE:FF''))
     28 (hub_setup 0 boot)
   = Inr ((hub_setup 0 boot)\<lparr>incoming := telemetry 5 7 ''AA:BB:CC:DD:EE:FF''\<rparr>) \<and>
   OnDataRecv [1, 2, 3, 4, 5, 6] (bytes_of_struct (telemetry 5 (- 150) ''AA:BB:CC:DD:EE:FF''))
     28 (hub_setup 0 boot)
   = Inr ((hub_setup 0 boot)\<lparr>incoming := telemetry 5 (- 150) ''AA:BB:CC:DD:EE:FF'',
            nodeSignals := (nodeSignals (hub_setup 0 boot))[5 := - 150],
            nodeMacs := (nodeMacs (hub_setup 0 boot))[5 := ''AA:BB:CC:DD:EE:FF'']\<rparr>)"
proof -
  have mp: "memcpy_struct (bytes_of_struct (telemetry 5 7 ''AA:BB:CC:DD:EE:FF''))
            = Inr (telemetry 5 7 ''AA:BB:CC:DD:EE:FF'')"
    by (simp add: memcpy_telemetry)
  have mn: "memcpy_struct (bytes_of_struct (telemetry 5 (- 150) ''AA:BB:CC:DD:EE:FF''))
            = Inr (telemetry 5 (- 150) ''AA:BB:CC:DD:EE:FF'')"
    by (simp add: memcpy_telemetry)
  have ip: "2 \<le> sint (id' (telemetry 5 7 ''AA:BB:CC:DD:EE:FF''))"
           "sint (id' (telemetry 5 7 ''AA:BB:CC:DD:EE:FF'')) \<le> 10"
           "0 \<le> sint (rssi (telemetry 5 7 ''AA:BB:CC:DD:EE:FF''))"
    by (simp_all add: telemetry_def)
  have nn: "2 \<le> sint (id' (telemetry 5 (- 150) ''AA:BB:CC:DD:EE:FF''))"
           "sint (id' (telemetry 5 (- 150) ''AA:BB:CC:DD:EE:FF'')) \<le> 10"
           "sint (rssi (telemetry 5 (- 150) ''AA:BB:CC:DD:EE:FF'')) < 0"
           "nat (sint (id' (telemetry 5 (- 150) ''AA:BB:CC:DD:EE:FF''))) = 5"
    by (simp_all add: telemetry_def)
  have s: "String_mac (telemetry 5 (- 150) ''AA:BB:CC:DD:EE:FF'')
           = Inr ''AA:BB:CC:DD:EE:FF''"
    by code_simp
  show ?thesis
    using C3_reading_sign_check [OF mp ip(1) ip(2), where mac_addr = "[1, 2, 3, 4, 5, 6]"
        and len = 28 and h = "hub_setup 0 boot"]
      C3_reading_sign_check [OF mn nn(1) nn(2), where s = "''AA:BB:CC:DD:EE:FF''"
        and mac_addr = "[1, 2, 3, 4, 5, 6]" and len = 28 and h = "hub_setup 0 boot"]
      ip(3) nn(3) nn(4) s
    by (simp add: telemetry_def)
qed

text \<open>
  The reading -150 lies outside [-100, 0] and is accepted all the same: slot 5 goes from
  the sentinel to -150.
\<close>

theorem C3_counterexample:
  "\<not> isl (OnDataRecv [1, 2, 3, 4, 5, 6]
            (bytes_of_struct (telemetry 5 (- 150) ''AA:BB:CC:DD:EE:FF'')) 28 (hub_setup 0 boot)) \<and>
   nodeSignals (projr (OnDataRecv [1, 2, 3, 4, 5, 6]
            (bytes_of_struct (telemetry 5 (- 150) ''AA:BB:CC:DD:EE:FF'')) 28 (hub_setup 0 boot))) ! 5
     = - 150 \<and>
   nodeSignals (hub_setup 0 boot) ! 5 = - 100"
  by code_simp

text \<open>
  C6. The handler does not look at the delivered length. A payload at least as long as
  the struct is handled exactly as its leading \<open>sizeof(struct_message)\<close> bytes are,
  whatever \<open>len\<close> says; for a shorter payload \<open>memcpy\<close> reads past the delivered
  bytes, and nothing rejects it first.
\<close>

theorem C6_length_not_checked:
  "(sizeof_struct_message \<le> length incomingData \<longrightarrow>
      OnDataRecv mac_addr incomingData len h =
      OnDataRecv mac_addr (take sizeof_struct_message incomingData) len' h) \<and>
   (length incomingData < sizeof_struct_message \<longrightarrow>
      OnDataRecv mac_addr incomingData len h = Inl ReadPastPayload)"
  by (simp add: OnDataRecv_def memcpy_take) (simp add: memcpy_struct_def)

theorem C6_length_not_checked_witness:
  "OnDataRecv [1, 2, 3, 4, 5, 6] long_payload 30 (hub_setup 0 boot) =
   OnDataRecv [1, 2, 3, 4, 5, 6] (take sizeof_struct_message long_payload) 28 (hub_setup 0 boot) \<and>
   OnDataRecv [1, 2, 3, 4, 5, 6] [5, 0, 0, 0, 214, 255, 255, 255] 8 (hub_setup 0 boot) =
   Inl ReadPastPayload"
proof -
  have l: "sizeof_struct_message \<le> length long_payload"
    by code_simp
  have s: "length [5, 0, 0, 0, 214, 255, 255, 255 :: u8] < sizeof_struct_message"
    by (simp add: sizeof_struct_message_def)
  show ?thesis
    using C6_length_not_checked [where incomingData = long_payload
        and mac_addr = "[1, 2, 3, 4, 5, 6]" and len = 30 and h = "hub_setup 0 boot" and len' = 28]
      C6_length_not_checked [where incomingData = "[5, 0, 0, 0, 214, 255, 255, 255]"
        and mac_addr = "[1, 2, 3, 4, 5, 6]" and len = 8 and h = "hub_setup 0 boot"] l s
    by blast
qed

text \<open>
  A payload of 30 bytes, whose length is neither 26 nor 28, updates slot 5.
\<close>

theorem C6_counterexample:
  "length long_payload = 30 \<and>
   \<not> isl (OnDataRecv [1, 2, 3, 4, 5, 6] long_payload 30 (hub_setup 0 boot)) \<and>
   nodeSignals (projr (OnDataRecv [1, 2, 3, 4, 5, 6] long_payload 30 (hub_setup 0 boot))) ! 5
     = - 42 \<and>
   nodeMacs (projr (OnDataRecv [1, 2, 3, 4, 5, 6] long_payload 30 (hub_setup 0 boot))) ! 5
     = ''AA:BB:CC:DD:EE:FF'' \<and>
   nodeSignals (hub_setup 0 boot) ! 5 = - 100 \<and>
   nodeMacs (hub_setup 0 boot) ! 5 = ''00:00:00:00:00:00''"
  by code_simp

text \<open>
  C10. The handler never reads its \<open>mac_addr\<close> argument: two deliveries of the same
  payload from different senders give the same result. The address stored is the one
  embedded in the payload, so a payload naming identity \<open>i\<close> in 2..10 with a negative
  reading writes slot \<open>i\<close> with the embedded address, whoever sent it.
\<close>

theorem C10_sender_address_ignored:
  "OnDataRecv mac_addr incomingData len h = OnDataRecv mac_addr' incomingData len h \<and>
   (2 \<le> sint i \<and> sint i \<le> 10 \<and> sint r < 0 \<and> length s \<le> 17 \<and> NUL \<notin> set s \<longrightarrow>
      OnDataRecv mac_addr (bytes_of_struct (telemetry i r s)) len h =
        Inr (h\<lparr>incoming := telemetry i r s,
                nodeSignals := (nodeSignals h)[nat (sint i) := r],
                nodeMacs := (nodeMacs h)[nat (sint i) := s]\<rparr>))"
proof -
  have "OnDataRecv mac_addr incomingData len h = OnDataRecv mac_addr' incomingData len h"
    by (simp add: OnDataRecv_def)
  moreover have "OnDataRecv mac_addr (bytes_of_struct (telemetry i r s)) len h =
        Inr (h\<lparr>incoming := telemetry i r s,
                nodeSignals := (nodeSignals h)[nat (sint i) := r],
                nodeMacs := (nodeMacs h)[nat (sint i) := s]\<rparr>)"
    if "2 \<le> sint i" "sint i \<le> 10" "sint r < 0" "length s \<le> 17" "NUL \<notin> set s"
  proof -
    have m: "memcpy_struct (bytes_of_struct (telemetry i r s)) = Inr (telemetry i r s)"
      using that by (simp add: memcpy_telemetry)
    have c: "String_mac (telemetry i r s) = Inr s"
      using that by (simp add: String_mac_telemetry)
    show ?thesis
      using OnDataRecv_accept [OF m _ _ _ c] that by (simp add: telemetry_def)
  qed
  ultimately show ?thesis by blast
qed

theorem C10_sender_address_ignored_witness:
  "OnDataRecv [1, 2, 3, 4, 5, 6] (bytes_of_struct (telemetry 7 (- 60) ''11:22:33:44:55:66''))
     28 (hub_setup 0 boot) =
   OnDataRecv [222, 173, 190, 239, 0, 1] (bytes_of_struct (telemetry 7 (- 60) ''11:22:33:44:55:66''))
     28 (hub_setup 0 boot) \<and>
   OnDataRecv [222, 173, 190, 239, 0, 1] (bytes_of_struct (telemetry 7 (- 60) ''11:22:33:44:55:66''))
     28 (hub_setup 0 boot) =
   Inr ((hub_setup 0 boot)\<lparr>incoming := telemetry 7 (- 60) ''11:22:33:44:55:66'',
          nodeSignals := (nodeSignals (hub_setup 0 boot))[7 := - 60],
          nodeMacs := (nodeMacs (hub_setup 0 boot))[7 := ''11:22:33:44:55:66'']\<rparr>)"
proof -
  have pre: "2 \<le> sint (7 :: int32) \<and> sint (7 :: int32) \<le> 10 \<and> sint (- 60 :: int32) < 0 \<and>
             length ''11:22:33:44:55:66'' \<le> 17 \<and> NUL \<notin> set ''11:22:33:44:55:66''"
    by (simp add: NUL_def)
  have n: "nat (sint (7 :: int32)) = 7"
    by simp
  show ?thesis
    using C10_sender_address_ignored [where mac_addr = "[1, 2, 3, 4, 5, 6]"
        and incomingData = "bytes_of_struct (telemetry 7 (- 60) ''11:22:33:44:55:66'')"
        and len = 28 and h = "hub_setup 0 boot" and mac_addr' = "[222, 173, 190, 239, 0, 1]"
        and i = 7 and r = "- 60" and s = "''11:22:33:44:55:66''"]
      C10_sender_address_ignored [where mac_addr = "[222, 173, 190, 239, 0, 1]"
        and incomingData = "bytes_of_struct (telemetry 7 (- 60) ''11:22:33:44:55:66'')"
        and len = 28 and h = "hub_setup 0 boot" and mac_addr' = "[222, 173, 190, 239, 0, 1]"
        and i = 7 and r = "- 60" and s = "''11:22:33:44:55:66''"] pre n
    by simp
qed

section \<open>The periodic cycle of the Hub\<close>

text \<open>
  C1. The line of one cycle is the tag \<open>DATA\<close> followed by ten pairs, joined by commas:
  for identity 1 the reading found by this cycle's own scan and the Hub's own address
  (neither is read from the table), for identities 2..10 the reading and the address
  string of that slot; these are 21 fields. Read back at the commas the line gives exactly
  these 21 fields whenever neither the Hub's address nor a stored address string contains
  a comma. After the record \<open>{id = 5, rssi = -42, mac = "AA:BB:CC:DD:EE:FF"}\<close> has been
  accepted, field 9 is \<open>-42\<close> and field 10 is \<open>AA:BB:CC:DD:EE:FF\<close>.
\<close>

theorem C1_output_record:
  "emitted nets macAddress h = join_commas (cycle_fields nets macAddress h) \<and>
   length (cycle_fields nets macAddress h) = 21 \<and>
   cycle_fields nets macAddress h ! 0 = ''DATA'' \<and>
   cycle_fields nets macAddress h ! 1 = String_int (scan_target nets (- 100)) \<and>
   cycle_fields nets macAddress h ! 2 = macAddress \<and>
   (\<forall>i. 2 \<le> i \<and> i \<le> 10 \<longrightarrow>
      cycle_fields nets macAddress h ! (2 * i - 1) = String_int (nodeSignals h ! i) \<and>
      cycle_fields nets macAddress h ! (2 * i) = nodeMacs h ! i) \<and>
   (CHR '','' \<notin> set macAddress \<and>
    (\<forall>i. 2 \<le> i \<and> i \<le> 10 \<longrightarrow> CHR '','' \<notin> set (nodeMacs h ! i)) \<longrightarrow>
      split_commas (emitted nets macAddress h) = cycle_fields nets macAddress h) \<and>
   (length (nodeSignals h0) = 11 \<and> length (nodeMacs h0) = 11 \<and>
    OnDataRecv mac_addr (bytes_of_struct (telemetry 5 (- 42) ''AA:BB:CC:DD:EE:FF'')) len h0 = Inr h
    \<longrightarrow> cycle_fields nets macAddress h ! 9 = ''-42'' \<and>
        cycle_fields nets macAddress h ! 10 = ''AA:BB:CC:DD:EE:FF'')"
proof -
  have fields: "\<forall>i. 2 \<le> i \<and> i \<le> 10 \<longrightarrow>
      cycle_fields nets macAddress h ! (2 * i - 1) = String_int (nodeSignals h ! i) \<and>
      cycle_fields nets macAddress h ! (2 * i) = nodeMacs h ! i"
    unfolding cycle_fields_def using output_fields_nth by blast
  have head: "cycle_fields nets macAddress h ! 0 = ''DATA'' \<and>
      cycle_fields nets macAddress h ! 1 = String_int (scan_target nets (- 100)) \<and>
      cycle_fields nets macAddress h ! 2 = macAddress"
    unfolding cycle_fields_def by (rule output_fields_head)
  have split: "CHR '','' \<notin> set macAddress \<and>
    (\<forall>i. 2 \<le> i \<and> i \<le> 10 \<longrightarrow> CHR '','' \<notin> set (nodeMacs h ! i)) \<longrightarrow>
      split_commas (emitted nets macAddress h) = cycle_fields nets macAddress h"
    by (simp add: split_emitted)
  have scenario: "cycle_fields nets macAddress h ! 9 = ''-42'' \<and>
        cycle_fields nets macAddress h ! 10 = ''AA:BB:CC:DD:EE:FF''"
    if len: "length (nodeSignals h0) = 11" "length (nodeMacs h0) = 11"
      and acc: "OnDataRecv mac_addr (bytes_of_struct (telemetry 5 (- 42) ''AA:BB:CC:DD:EE:FF''))
                  len h0 = Inr h"
  proof -
    have m: "memcpy_struct (bytes_of_struct (telemetry 5 (- 42) ''AA:BB:CC:DD:EE:FF''))
             = Inr (telemetry 5 (- 42) ''AA:BB:CC:DD:EE:FF'')"
      by (simp add: memcpy_telemetry)
    have c: "String_mac (telemetry 5 (- 42) ''AA:BB:CC:DD:EE:FF'')
             = Inr ''AA:BB:CC:DD:EE:FF''"
      by code_simp
    have "OnDataRecv mac_addr (bytes_of_struct (telemetry 5 (- 42) ''AA:BB:CC:DD:EE:FF''))
            len h0 =
          Inr (h0\<lparr>incoming := telemetry 5 (- 42) ''AA:BB:CC:DD:EE:FF'',
                   nodeSignals := (nodeSignals h0)[5 := - 42],
                   nodeMacs := (nodeMacs h0)[5 := ''AA:BB:CC:DD:EE:FF'']\<rparr>)"
      using OnDataRecv_accept [OF m _ _ _ c] by (simp add: telemetry_def)
    with acc have "nodeSignals h ! 5 = - 42" "nodeMacs h ! 5 = ''AA:BB:CC:DD:EE:FF''"
      using len by auto
    moreover have "String_int (- 42) = ''-42''"
      by code_simp
    ultimately show ?thesis
      using fields [rule_format, of 5] by simp
  qed
  show ?thesis
    using emitted_join [of nets macAddress h] head fields split scenario
    by (simp add: cycle_fields_def length_output_fields)
qed

theorem C1_output_record_witness:
  "split_commas (emitted [] hub_address (projr
     (OnDataRecv [1, 2, 3, 4, 5, 6] (bytes_of_struct (telemetry 5 (- 42) ''AA:BB:CC:DD:EE:FF''))
        28 (hub_setup 0 boot)))) ! 9 = ''-42'' \<and>
   split_commas (emitted [] hub_address (projr
     (OnDataRecv [1, 2, 3, 4, 5, 6] (bytes_of_struct (telemetry 5 (- 42) ''AA:BB:CC:DD:EE:FF''))
        28 (hub_setup 0 boot)))) ! 10 = ''AA:BB:CC:DD:EE:FF'' \<and>
   length (split_commas (emitted [] hub_address (projr
     (OnDataRecv [1, 2, 3, 4, 5, 6] (bytes_of_struct (telemetry 5 (- 42) ''AA:BB:CC:DD:EE:FF''))
        28 (hub_setup 0 boot))))) = 21"
proof -
  let ?h = "projr (OnDataRecv [1, 2, 3, 4, 5, 6]
     (bytes_of_struct (telemetry 5 (- 42) ''AA:BB:CC:DD:EE:FF'')) 28 (hub_setup 0 boot))"
  have acc: "OnDataRecv [1, 2, 3, 4, 5, 6]
     (bytes_of_struct (telemetry 5 (- 42) ''AA:BB:CC:DD:EE:FF'')) 28 (hub_setup 0 boot) = Inr ?h"
    by code_simp
  have len: "length (nodeSignals (hub_setup 0 boot)) = 11 \<and>
             length (nodeMacs (hub_setup 0 boot)) = 11"
    by (simp add: hub_setup_ok)
  have own: "CHR '','' \<notin> set hub_address"
    by code_simp
  have macs: "\<forall>i. 2 \<le> i \<and> i \<le> 10 \<longrightarrow> CHR '','' \<notin> set (nodeMacs ?h ! i)"
  proof -
    have "\<forall>i\<in>set [2..<11]. CHR '','' \<notin> set (nodeMacs ?h ! i)"
      by code_simp
    then show ?thesis
      by (simp only: range_2_10)
  qed
  note rec = C1_output_record [where nets = "[]" and macAddress = hub_address and h = ?h
      and ?h0.0 = "hub_setup 0 boot" and mac_addr = "[1, 2, 3, 4, 5, 6]" and len = 28]
  from rec own macs have sp: "split_commas (emitted [] hub_address ?h) = cycle_fields [] hub_address ?h"
    by blast
  from rec have n: "length (cycle_fields [] hub_address ?h) = 21"
    by blast
  from rec acc len have "cycle_fields [] hub_address ?h ! 9 = ''-42'' \<and>
      cycle_fields [] hub_address ?h ! 10 = ''AA:BB:CC:DD:EE:FF''"
    by blast
  with sp n show ?thesis
    by simp
qed

text \<open>
  An accepted record whose address string is \<open>AA,BB\<close> is stored as it is, and the next
  line has 22 comma-separated fields.
\<close>

theorem C1_counterexample:
  "\<not> isl (hub_run hub_address (hub_setup 0 boot)
      [Deliver [1, 2, 3, 4, 5, 6] (bytes_of_struct (telemetry 5 (- 42) ''AA,BB'')) 28, Cycle []]) \<and>
   length (split_commas (last (serial (projr (hub_run hub_address (hub_setup 0 boot)
      [Deliver [1, 2, 3, 4, 5, 6] (bytes_of_struct (telemetry 5 (- 42) ''AA,BB'')) 28, Cycle []])))))
     = 22"
  by code_simp

text \<open>
  C4. A cycle writes nothing into the table. The pair for identity 1 exists only in the
  emitted line: field 1 is the reading of the first scan entry named \<open>targetSSID\<close>, or
  -100 when there is none, and field 2 is the Hub's own address. Slot 1 of the table is
  changed by no cycle and by no delivery.
\<close>

theorem C4_own_reading_emitted:
  "nodeSignals (hub_loop nets macAddress h) = nodeSignals h \<and>
   nodeMacs (hub_loop nets macAddress h) = nodeMacs h \<and>
   emitted nets macAddress h = join_commas (cycle_fields nets macAddress h) \<and>
   cycle_fields nets macAddress h ! 1 =
     String_int (case find (\<lambda>e. fst e = targetSSID) nets of None \<Rightarrow> - 100 | Some e \<Rightarrow> snd e) \<and>
   cycle_fields nets macAddress h ! 2 = macAddress \<and>
   (hub_run macAddress h evs = Inr h' \<longrightarrow>
      nodeSignals h' ! 1 = nodeSignals h ! 1 \<and> nodeMacs h' ! 1 = nodeMacs h ! 1)"
proof -
  have "nodeSignals h' ! 1 = nodeSignals h ! 1 \<and> nodeMacs h' ! 1 = nodeMacs h ! 1"
    if run: "hub_run macAddress h evs = Inr h'"
  proof -
    have "\<forall>ev\<in>set evs. \<not> claims_slot 1 ev"
      using never_claims_slot_1 by blast
    from hub_run_slot [OF run this] show ?thesis .
  qed
  moreover have "cycle_fields nets macAddress h ! 1 =
     String_int (case find (\<lambda>e. fst e = targetSSID) nets of None \<Rightarrow> - 100 | Some e \<Rightarrow> snd e)"
    using output_fields_head [of "scan_target nets (- 100)" macAddress h]
    by (simp add: cycle_fields_def scan_target_find)
  moreover have "cycle_fields nets macAddress h ! 2 = macAddress"
    using output_fields_head [of "scan_target nets (- 100)" macAddress h]
    by (simp add: cycle_fields_def)
  ultimately show ?thesis
    by (simp add: hub_loop_table emitted_join)
qed

theorem C4_own_reading_emitted_witness:
  "nodeSignals (projr (hub_run hub_address (hub_setup 0 boot)
      [Deliver [1, 2, 3, 4, 5, 6] (bytes_of_struct (telemetry 1 (- 42) ''AA:BB:CC:DD:EE:FF'')) 28,
       Cycle [(''home'', - 30), (''XXX'', - 50)]])) ! 1 = - 100 \<and>
   nodeMacs (projr (hub_run hub_address (hub_setup 0 boot)
      [Deliver [1, 2, 3, 4, 5, 6] (bytes_of_struct (telemetry 1 (- 42) ''AA:BB:CC:DD:EE:FF'')) 28,
       Cycle [(''home'', - 30), (''XXX'', - 50)]])) ! 1 = ''00:00:00:00:00:00''"
proof -
  let ?evs = "[Deliver [1, 2, 3, 4, 5, 6]
        (bytes_of_struct (telemetry 1 (- 42) ''AA:BB:CC:DD:EE:FF'')) 28,
       Cycle [(''home'', - 30), (''XXX'', - 50)]]"
  have run: "hub_run hub_address (hub_setup 0 boot) ?evs
             = Inr (projr (hub_run hub_address (hub_setup 0 boot) ?evs))"
    by code_simp
  have init: "nodeSignals (hub_setup 0 boot) ! 1 = - 100 \<and>
              nodeMacs (hub_setup 0 boot) ! 1 = ''00:00:00:00:00:00''"
    by code_simp
  from C4_own_reading_emitted [where macAddress = hub_address and h = "hub_setup 0 boot"
      and evs = ?evs and h' = "projr (hub_run hub_address (hub_setup 0 boot) ?evs)"] run
  have "nodeSignals (projr (hub_run hub_address (hub_setup 0 boot) ?evs)) ! 1
          = nodeSignals (hub_setup 0 boot) ! 1 \<and>
        nodeMacs (projr (hub_run hub_address (hub_setup 0 boot) ?evs)) ! 1
          = nodeMacs (hub_setup 0 boot) ! 1"
    by blast
  with init show ?thesis by simp
qed

text \<open>
  After a cycle whose scan finds the target at -50, slot 1 of the table still holds the
  sentinel pair, while field 1 of the line is \<open>-50\<close>.
\<close>

theorem C4_counterexample:
  "\<not> isl (hub_run hub_address (hub_setup 0 boot) [Cycle [(''XXX'', - 50)]]) \<and>
   nodeSignals (projr (hub_run hub_address (hub_setup 0 boot) [Cycle [(''XXX'', - 50)]])) ! 1
     = - 100 \<and>
   nodeSignals (projr (hub_run hub_address (hub_setup 0 boot) [Cycle [(''XXX'', - 50)]])) ! 1
     \<noteq> - 50 \<and>
   nodeMacs (projr (hub_run hub_address (hub_setup 0 boot) [Cycle [(''XXX'', - 50)]])) ! 1
     \<noteq> hub_address \<and>
   split_commas (last (serial (projr
     (hub_run hub_address (hub_setup 0 boot) [Cycle [(''XXX'', - 50)]])))) ! 1 = ''-50''"
  by code_simp

text \<open>
  C5. After a successful \<open>setup()\<close>, and after any run of deliveries and cycles in which
  no valid record claiming identity \<open>i\<close> (2..10) was delivered, slot \<open>i\<close> holds the
  sentinel pair and the line of the next cycle carries \<open>-100\<close> and
  \<open>00:00:00:00:00:00\<close> as the fields \<open>2i - 1\<close> and \<open>2i\<close> it is joined from, which are
  also what a reader finds there when no address in the line contains a comma. The empty
  run is the state right after initialisation, and every line printed during such a run
  is the line of the next cycle after a shorter such run.
\<close>

theorem C5_startup_sentinel:
  assumes "hub_run macAddress (hub_setup 0 boot) evs = Inr h"
    and "2 \<le> i" and "i \<le> 10"
    and "\<forall>ev\<in>set evs. \<not> claims_slot i ev"
  shows "nodeSignals h ! i = - 100 \<and> nodeMacs h ! i = ''00:00:00:00:00:00'' \<and>
         emitted nets macAddress h = join_commas (cycle_fields nets macAddress h) \<and>
         cycle_fields nets macAddress h ! (2 * i - 1) = ''-100'' \<and>
         cycle_fields nets macAddress h ! (2 * i) = ''00:00:00:00:00:00'' \<and>
         (CHR '','' \<notin> set macAddress \<and>
          (\<forall>k. 2 \<le> k \<and> k \<le> 10 \<longrightarrow> CHR '','' \<notin> set (nodeMacs h ! k)) \<longrightarrow>
            split_commas (emitted nets macAddress h) ! (2 * i - 1) = ''-100'' \<and>
            split_commas (emitted nets macAddress h) ! (2 * i) = ''00:00:00:00:00:00'')"
proof -
  from hub_run_slot [OF assms(1) assms(4)] hub_setup_ok assms(3)
  have slot: "nodeSignals h ! i = - 100" "nodeMacs h ! i = zero_mac"
    by (simp_all add: replicate_11_nth)
  from output_fields_nth [OF assms(2) assms(3)] slot
  have fields: "cycle_fields nets macAddress h ! (2 * i - 1) = ''-100''"
    "cycle_fields nets macAddress h ! (2 * i) = ''00:00:00:00:00:00''"
    by (simp_all add: cycle_fields_def String_int_sentinel zero_mac_def)
  have "split_commas (emitted nets macAddress h) = cycle_fields nets macAddress h"
    if "CHR '','' \<notin> set macAddress"
      and "\<forall>k. 2 \<le> k \<and> k \<le> 10 \<longrightarrow> CHR '','' \<notin> set (nodeMacs h ! k)"
    using that by (rule split_emitted)
  with slot fields show ?thesis
    by (simp add: emitted_join zero_mac_def)
qed

theorem C5_startup_sentinel_witness:
  "nodeSignals (projr (hub_run hub_address (hub_setup 0 boot)
      [Deliver [1, 2, 3, 4, 5, 6] (bytes_of_struct (telemetry 3 (- 60) ''11:22:33:44:55:66'')) 28,
       Cycle [(''XXX'', - 50)],
       Deliver [1, 2, 3, 4, 5, 6] (bytes_of_struct (telemetry 5 7 ''AA:BB:CC:DD:EE:FF'')) 28])) ! 5
     = - 100 \<and>
   cycle_fields [] hub_address (projr (hub_run hub_address (hub_setup 0 boot)
      [Deliver [1, 2, 3, 4, 5, 6] (bytes_of_struct (telemetry 3 (- 60) ''11:22:33:44:55:66'')) 28,
       Cycle [(''XXX'', - 50)],
       Deliver [1, 2, 3, 4, 5, 6] (bytes_of_struct (telemetry 5 7 ''AA:BB:CC:DD:EE:FF'')) 28])) ! 10
     = ''00:00:00:00:00:00''"
proof -
  let ?evs = "[Deliver [1, 2, 3, 4, 5, 6] (bytes_of_struct (telemetry 3 (- 60) ''11:22:33:44:55:66'')) 28,
       Cycle [(''XXX'', - 50)],
       Deliver [1, 2, 3, 4, 5, 6] (bytes_of_struct (telemetry 5 7 ''AA:BB:CC:DD:EE:FF'')) 28]"
  have run: "hub_run hub_address (hub_setup 0 boot) ?evs
             = Inr (projr (hub_run hub_address (hub_setup 0 boot) ?evs))"
    by code_simp
  have quiet: "\<forall>ev\<in>set ?evs. \<not> claims_slot 5 ev"
    by code_simp
  show ?thesis
    using C5_startup_sentinel [OF run _ _ quiet, where nets = "[]"] by simp
qed

text \<open>
  C8. After a successful \<open>setup()\<close> the address field of an identity \<open>i\<close> in 2..10
  (field \<open>2i\<close> of the line) is the sentinel \<open>00:00:00:00:00:00\<close> as long as no valid
  record for \<open>i\<close> has been delivered, and otherwise the string that \<open>String\<close> reads
  from the address bytes of the most recent valid record for \<open>i\<close>, stored as it is.
  When every valid record carries a canonical colon-hex address and the Hub's own
  address is canonical, the line splits into its 21 fields and each address field
  2, 4, ..., 20 is canonical (the sentinel is itself of that form).
\<close>

theorem C8_addresses_stored_verbatim:
  assumes "hub_run macAddress (hub_setup 0 boot) evs = Inr h"
    and "2 \<le> i" and "i \<le> 10"
  shows "((\<forall>ev\<in>set evs. \<not> claims_slot i ev) \<longrightarrow>
            cycle_fields nets macAddress h ! (2 * i) = ''00:00:00:00:00:00'') \<and>
         (evs = evs1 @ Deliver mac_addr incomingData len # evs2 \<and>
          claims_slot i (Deliver mac_addr incomingData len) \<and>
          (\<forall>ev\<in>set evs2. \<not> claims_slot i ev) \<and>
          memcpy_struct incomingData = Inr m \<longrightarrow>
            String_mac m = Inr (cycle_fields nets macAddress h ! (2 * i))) \<and>
         emitted nets macAddress h = join_commas (cycle_fields nets macAddress h) \<and>
         (canonical_mac macAddress \<and> (\<forall>ev\<in>set evs. well_addressed ev) \<longrightarrow>
            split_commas (emitted nets macAddress h) = cycle_fields nets macAddress h \<and>
            (\<forall>k. 1 \<le> k \<and> k \<le> 10 \<longrightarrow>
               canonical_mac (split_commas (emitted nets macAddress h) ! (2 * k))))"
proof -
  have field: "cycle_fields nets macAddress h ! (2 * i) = nodeMacs h ! i"
    using output_fields_nth [OF assms(2) assms(3)] by (simp add: cycle_fields_def)
  have none: "cycle_fields nets macAddress h ! (2 * i) = ''00:00:00:00:00:00''"
    if "\<forall>ev\<in>set evs. \<not> claims_slot i ev"
    using hub_run_slot [OF assms(1) that] hub_setup_ok assms(3) field
    by (simp add: replicate_11_nth zero_mac_def)
  have latest: "String_mac m = Inr (cycle_fields nets macAddress h ! (2 * i))"
    if "evs = evs1 @ Deliver mac_addr incomingData len # evs2"
      and "claims_slot i (Deliver mac_addr incomingData len)"
      and "\<forall>ev\<in>set evs2. \<not> claims_slot i ev"
      and "memcpy_struct incomingData = Inr m"
  proof -
    from assms(1) that(1)
    obtain h1 where r1: "hub_run macAddress (hub_setup 0 boot) evs1 = Inr h1"
      and r2: "hub_run macAddress h1 (Deliver mac_addr incomingData len # evs2) = Inr h"
      by (auto simp add: hub_run_append split: sum.splits)
    from r2 obtain h2
      where s: "hub_step macAddress h1 (Deliver mac_addr incomingData len) = Inr h2"
        and r3: "hub_run macAddress h2 evs2 = Inr h"
      by (auto split: sum.splits)
    from hub_run_lengths [OF r1] hub_setup_ok
    have cb: "recv_cb h1" and len: "length (nodeMacs h1) = 11"
      by simp_all
    from s cb have "OnDataRecv mac_addr incomingData len h1 = Inr h2"
      by simp
    with that(2) that(4) len assms(3) have "String_mac m = Inr (nodeMacs h2 ! i)"
      by (auto simp add: OnDataRecv_def Let_def split: sum.splits if_splits)
    with hub_run_slot [OF r3 that(3)] field show ?thesis
      by simp
  qed
  have canon: "split_commas (emitted nets macAddress h) = cycle_fields nets macAddress h \<and>
            (\<forall>k. 1 \<le> k \<and> k \<le> 10 \<longrightarrow>
               canonical_mac (split_commas (emitted nets macAddress h) ! (2 * k)))"
    if own: "canonical_mac macAddress" and good: "\<forall>ev\<in>set evs. well_addressed ev"
  proof -
    have init: "\<forall>s\<in>set (nodeMacs (hub_setup 0 boot)). canonical_mac s"
      using hub_setup_ok by (simp add: canonical_zero_mac)
    from hub_run_canonical [OF assms(1) good init]
    have all: "\<forall>s\<in>set (nodeMacs h). canonical_mac s" .
    from hub_run_lengths [OF assms(1)] hub_setup_ok have len: "length (nodeMacs h) = 11"
      by simp
    have slot: "canonical_mac (nodeMacs h ! k)" if "k \<le> 10" for k
      using all len that by (simp add: nth_mem)
    then have free: "\<forall>k. 2 \<le> k \<and> k \<le> 10 \<longrightarrow> CHR '','' \<notin> set (nodeMacs h ! k)"
      by (simp add: canonical_comma_free)
    from own have "CHR '','' \<notin> set macAddress"
      by (rule canonical_comma_free)
    from split_emitted [OF this free]
    have sp: "split_commas (emitted nets macAddress h) = cycle_fields nets macAddress h" .
    have "canonical_mac (cycle_fields nets macAddress h ! (2 * k))" if "1 \<le> k" "k \<le> 10" for k
    proof (cases "k = 1")
      case True
      then show ?thesis
        using own output_fields_head [of "scan_target nets (- 100)" macAddress h]
        by (simp add: cycle_fields_def)
    next
      case False
      with that(1) have "2 \<le> k" by simp
      from output_fields_nth [OF this that(2)] slot [OF that(2)] show ?thesis
        by (simp add: cycle_fields_def)
    qed
    with sp show ?thesis by simp
  qed
  from emitted_join [of nets macAddress h] none latest canon show ?thesis
    by blast
qed

theorem C8_addresses_stored_verbatim_witness:
  "cycle_fields [] hub_address (projr (hub_run hub_address (hub_setup 0 boot)
      [Deliver [1, 2, 3, 4, 5, 6] (bytes_of_struct (telemetry 5 (- 42) ''AA:BB:CC:DD:EE:FF'')) 28,
       Cycle [],
       Deliver [1, 2, 3, 4, 5, 6] (bytes_of_struct (telemetry 5 (- 60) ''11:22:33:44:55:66'')) 28,
       Deliver [1, 2, 3, 4, 5, 6] (bytes_of_struct (telemetry 12 (- 42) ''hello'')) 28,
       Cycle []])) ! 10 = ''11:22:33:44:55:66'' \<and>
   cycle_fields [] hub_address (projr (hub_run hub_address (hub_setup 0 boot)
      [Deliver [1, 2, 3, 4, 5, 6] (bytes_of_struct (telemetry 5 (- 42) ''AA:BB:CC:DD:EE:FF'')) 28,
       Cycle [],
       Deliver [1, 2, 3, 4, 5, 6] (bytes_of_struct (telemetry 5 (- 60) ''11:22:33:44:55:66'')) 28,
       Deliver [1, 2, 3, 4, 5, 6] (bytes_of_struct (telemetry 12 (- 42) ''hello'')) 28,
       Cycle []])) ! 8 = ''00:00:00:00:00:00'' \<and>
   canonical_mac (split_commas (emitted [] hub_address (projr
     (hub_run hub_address (hub_setup 0 boot)
      [Deliver [1, 2, 3, 4, 5, 6] (bytes_of_struct (telemetry 5 (- 42) ''AA:BB:CC:DD:EE:FF'')) 28,
       Cycle [],
       Deliver [1, 2, 3, 4, 5, 6] (bytes_of_struct (telemetry 5 (- 60) ''11:22:33:44:55:66'')) 28,
       Deliver [1, 2, 3, 4, 5, 6] (bytes_of_struct (telemetry 12 (- 42) ''hello'')) 28,
       Cycle []]))) ! 10)"
proof -
  let ?d1 = "Deliver [1, 2, 3, 4, 5, 6]
      (bytes_of_struct (telemetry 5 (- 42) ''AA:BB:CC:DD:EE:FF'')) 28"
  let ?p2 = "bytes_of_struct (telemetry 5 (- 60) ''11:22:33:44:55:66'')"
  let ?d3 = "Deliver [1, 2, 3, 4, 5, 6] (bytes_of_struct (telemetry 12 (- 42) ''hello'')) 28"
  let ?evs = "[?d1, Cycle [], Deliver [1, 2, 3, 4, 5, 6] ?p2 28, ?d3, Cycle []]"
  let ?h = "projr (hub_run hub_address (hub_setup 0 boot) ?evs)"
  have run: "hub_run hub_address (hub_setup 0 boot) ?evs = Inr ?h"
    by code_simp
  have i5: "(2::nat) \<le> 5" "(5::nat) \<le> 10" and i4: "(2::nat) \<le> 4" "(4::nat) \<le> 10"
    by simp_all
  have parts: "?evs = [?d1, Cycle []] @ Deliver [1, 2, 3, 4, 5, 6] ?p2 28 # [?d3, Cycle []]"
    by simp
  have claim: "claims_slot 5 (Deliver [1, 2, 3, 4, 5, 6] ?p2 28)"
    by code_simp
  have quiet: "\<forall>ev\<in>set [?d3, Cycle []]. \<not> claims_slot 5 ev"
    by code_simp
  have m: "memcpy_struct ?p2 = Inr (telemetry 5 (- 60) ''11:22:33:44:55:66'')"
    by (simp add: memcpy_telemetry)
  have str: "String_mac (telemetry 5 (- 60) ''11:22:33:44:55:66'') = Inr ''11:22:33:44:55:66''"
    by code_simp
  have none4: "\<forall>ev\<in>set ?evs. \<not> claims_slot 4 ev"
    by code_simp
  have own: "canonical_mac hub_address"
    by code_simp
  have good: "\<forall>ev\<in>set ?evs. well_addressed ev"
    by code_simp
  have line: "split_commas (emitted [] hub_address ?h) ! 10 = ''11:22:33:44:55:66''"
    by code_simp
  note t5 = C8_addresses_stored_verbatim [OF run i5, where nets = "[]"
      and ?evs1.0 = "[?d1, Cycle []]"
      and mac_addr = "[1, 2, 3, 4, 5, 6]" and incomingData = ?p2 and len = 28
      and ?evs2.0 = "[?d3, Cycle []]" and m = "telemetry 5 (- 60) ''11:22:33:44:55:66''"]
  note latest = t5 [THEN conjunct2, THEN conjunct1, THEN mp,
      OF conjI [OF parts conjI [OF claim conjI [OF quiet m]]]]
  with str have f10: "cycle_fields [] hub_address ?h ! (2 * 5) = ''11:22:33:44:55:66''"
    by simp
  note canon = t5 [THEN conjunct2, THEN conjunct2, THEN conjunct2, THEN mp,
      OF conjI [OF own good], THEN conjunct2, THEN spec, of 5]
  then have "canonical_mac (split_commas (emitted [] hub_address ?h) ! (2 * 5))"
    by simp
  moreover note C8_addresses_stored_verbatim [OF run i4, where nets = "[]",
      THEN conjunct1, THEN mp, OF none4]
  ultimately show ?thesis
    using f10 line by (simp del: hub_run.simps)
qed

text \<open>
  A record for identity 5 whose address bytes spell \<open>hello\<close> puts \<open>hello\<close> into
  field 10.
\<close>

theorem C8_counterexample:
  "\<not> isl (hub_run hub_address (hub_setup 0 boot)
      [Deliver [1, 2, 3, 4, 5, 6] (bytes_of_struct (telemetry 5 (- 42) ''hello'')) 28, Cycle []]) \<and>
   split_commas (last (serial (projr (hub_run hub_address (hub_setup 0 boot)
      [Deliver [1, 2, 3, 4, 5, 6] (bytes_of_struct (telemetry 5 (- 42) ''hello'')) 28, Cycle []]))))
     ! 10 = ''hello'' \<and>
   \<not> canonical_mac ''hello'' \<and> ''hello'' \<noteq> ''00:00:00:00:00:00''"
  by code_simp

section \<open>The Satellite cycle\<close>

text \<open>
  C7. One cycle of the Satellite builds a record with the identity \<open>NODE_ID\<close>, the
  reading of the first scan entry (or -100 when the scan found nothing) and the node's
  own address as a NUL-terminated string, and calls \<open>esp_now_send\<close> once, for the
  collector, with the bytes of that record; a run of \<open>n\<close> cycles makes \<open>n\<close> calls.
\<close>

theorem C7_satellite_cycle:
  assumes "length macAddress \<le> 17" and "NUL \<notin> set macAddress"
    and "length (mac (myData s)) = 18"
  shows "id' (myData (sat_loop nets macAddress s)) = NODE_ID \<and>
         (nets = [] \<longrightarrow> rssi (myData (sat_loop nets macAddress s)) = - 100) \<and>
         (nets \<noteq> [] \<longrightarrow> rssi (myData (sat_loop nets macAddress s)) = snd (hd nets)) \<and>
         String_cstr (mac (myData (sat_loop nets macAddress s))) = Inr macAddress \<and>
         sent (sat_loop nets macAddress s) =
           sent s @ [(collectorMAC, bytes_of_struct (myData (sat_loop nets macAddress s)),
                      sizeof_struct_message)] \<and>
         memcpy_struct (bytes_of_struct (myData (sat_loop nets macAddress s))) =
           Inr (myData (sat_loop nets macAddress s)) \<and>
         length (sent (sat_run macAddress s scans)) = length (sent s) + length scans"
proof -
  note c = toCharArray_cstr [OF assms(1) assms(2) assms(3)]
  have r: "(nets = [] \<longrightarrow> rssi (myData (sat_loop nets macAddress s)) = - 100) \<and>
         (nets \<noteq> [] \<longrightarrow> rssi (myData (sat_loop nets macAddress s)) = snd (hd nets))"
    by (cases nets) (simp_all add: sat_loop_def Let_def)
  have m: "mac (myData (sat_loop nets macAddress s)) = toCharArray macAddress (mac (myData s)) 18"
    by (simp add: sat_loop_def Let_def)
  have "memcpy_struct (bytes_of_struct (myData (sat_loop nets macAddress s))) =
           Inr (myData (sat_loop nets macAddress s))"
    using c m by (simp add: memcpy_bytes_of_struct)
  moreover have "id' (myData (sat_loop nets macAddress s)) = NODE_ID"
    by (simp add: sat_loop_def Let_def)
  moreover have "sent (sat_loop nets macAddress s) =
           sent s @ [(collectorMAC, bytes_of_struct (myData (sat_loop nets macAddress s)),
                      sizeof_struct_message)]"
    by (simp add: sat_loop_def Let_def)
  ultimately show ?thesis
    using r c m by (simp add: length_sent_sat_run)
qed

theorem C7_satellite_cycle_witness:
  "rssi (myData (sat_loop [(''home'', - 30), (''cafe'', - 70)] sat_address sat_boot)) = - 30 \<and>
   rssi (myData (sat_loop [] sat_address sat_boot)) = - 100 \<and>
   id' (myData (sat_loop [] sat_address sat_boot)) = 9 \<and>
   String_cstr (mac (myData (sat_loop [] sat_address sat_boot))) = Inr ''5C:CF:7F:00:00:09'' \<and>
   length (sent (sat_run sat_address sat_boot [[], [(''home'', - 30)], []])) = 3"
proof -
  have a: "length sat_address \<le> 17" "NUL \<notin> set sat_address"
    by code_simp+
  have b: "length (mac (myData sat_boot)) = 18"
    by code_simp
  from C7_satellite_cycle [OF a b, where nets = "[(''home'', - 30), (''cafe'', - 70)]"]
  have "rssi (myData (sat_loop [(''home'', - 30), (''cafe'', - 70)] sat_address sat_boot)) = - 30"
    by simp
  moreover from C7_satellite_cycle [OF a b, where nets = "[]"
      and scans = "[[], [(''home'', - 30)], []]"]
  have "rssi (myData (sat_loop [] sat_address sat_boot)) = - 100 \<and>
   id' (myData (sat_loop [] sat_address sat_boot)) = 9 \<and>
   String_cstr (mac (myData (sat_loop [] sat_address sat_boot))) = Inr ''5C:CF:7F:00:00:09'' \<and>
   length (sent (sat_run sat_address sat_boot [[], [(''home'', - 30)], []])) = 3"
    by (simp add: NODE_ID_def sat_address_def sat_boot_def)
  ultimately show ?thesis by simp
qed

section \<open>Failed initialisation\<close>

text \<open>
  C9. When \<open>esp_now_init()\<close> returns 1, \<open>setup()\<close> prints the error and returns, and
  the cycles run all the same: the Hub prints a \<open>DATA\<close> line per cycle, from a table that
  was never initialised, and the Satellite calls \<open>esp_now_send\<close> once per cycle.
\<close>

theorem C9_loop_runs_after_failed_init:
  "hub_run hub_address (hub_setup 1 boot) [Cycle [], Cycle []] =
     Inr (boot\<lparr>serial := [''Error initializing ESP-NOW'',
                           ''DATA,-100,5C:CF:7F:00:00:01,0,,0,,0,,0,,0,,0,,0,,0,,0,'',
                           ''DATA,-100,5C:CF:7F:00:00:01,0,,0,,0,,0,,0,,0,,0,,0,,0,'']\<rparr>) \<and>
   length (sent (sat_run sat_address (sat_setup 1 sat_boot) [[], []])) = 2 \<and>
   sat_serial (sat_run sat_address (sat_setup 1 sat_boot) [[], []]) =
     [''Error initializing ESP-NOW'',
      ''Node 9 reporting RSSI: -100 dBm to Hub'',
      ''Node 9 reporting RSSI: -100 dBm to Hub'']"
  by code_simp

end
